theory Spec2Isabelle
  imports Main "HOL-Library.Word"
begin

section \<open>Word scoring: \<open>pointsForWord\<close> of \<open>src/utils.js\<close>\<close>

text \<open>
  The function under study:
  \<^verbatim>\<open>
  export function pointsForWord(word) {
    let points = 0;
    for (const char of word) {
      points += /[aeiou]/i.test(char) ? 1 : 2;
    }
    return points;
  }
  \<close>
  It leans on three pieces of the language: the iteration protocol of \<open>for ... of\<close>,
  the string iterator, and the matching of a regular expression that carries the flag
  \<open>i\<close> and not the flag \<open>u\<close>. Each of them is written out below, following ECMA-262.
\<close>

subsection \<open>Values, strings and errors\<close>

text \<open>
  A string of the language is a finite sequence of 16-bit code units; any such sequence is
  a string, also one with an unpaired surrogate.
\<close>

type_synonym codeUnit = "16 word"
type_synonym jsString = "codeUnit list"

text \<open>
  The argument \<open>word\<close> is any value. Of the values that are not strings the embedding keeps
  \<open>undefined\<close> (a missing argument) and \<open>null\<close>; objects, arrays and the other
  primitives are left out.
\<close>

datatype jsValue = JSUndefined | JSNull | JSString jsString

datatype jsError = TypeError

text \<open>
  A string literal of the source whose characters are all ASCII, as code units.
\<close>

definition utf16 :: "string \<Rightarrow> jsString" where
  "utf16 s = map of_char s"

subsection \<open>The string iterator\<close>

definition isLeadSurrogate :: "codeUnit \<Rightarrow> bool" where
  "isLeadSurrogate c = (0xD800 \<le> c \<and> c \<le> 0xDBFF)"

definition isTrailSurrogate :: "codeUnit \<Rightarrow> bool" where
  "isTrailSurrogate c = (0xDC00 \<le> c \<and> c \<le> 0xDFFF)"

text \<open>
  \<open>%StringIteratorPrototype%.next\<close> over the whole string: at each position
  \<open>CodePointAt\<close> takes a lead surrogate together with the trail surrogate that follows
  it, and any other code unit alone. Every value handed to the loop body is a string of one
  or two code units.
\<close>

fun stringIterator :: "jsString \<Rightarrow> jsString list" where
  "stringIterator [] = []"
| "stringIterator [c] = [[c]]"
| "stringIterator (c # d # rest) =
     (if isLeadSurrogate c \<and> isTrailSurrogate d
      then [c, d] # stringIterator rest
      else [c] # stringIterator (d # rest))"

text \<open>
  \<open>GetIterator\<close>: \<open>undefined\<close> and \<open>null\<close> have no \<open>@@iterator\<close> method and the
  loop throws a \<open>TypeError\<close> before its first round.
\<close>

fun getIterator :: "jsValue \<Rightarrow> jsError + jsString list" where
  "getIterator JSUndefined = Inl TypeError"
| "getIterator JSNull = Inl TypeError"
| "getIterator (JSString s) = Inr (stringIterator s)"

subsection \<open>The regular expression \<open>/[aeiou]/i\<close>\<close>

text \<open>
  Without the flag \<open>u\<close> the matcher works on code units, and \<open>Canonicalize\<close> compares
  them after the upper-case mapping of the Unicode Character Database. The mapping of the
  code units below \<open>0x100\<close> is written out; the rest of the table belongs to the engine
  and is a parameter \<open>up\<close> of the model.
\<close>

type_synonym caseTable = "codeUnit \<Rightarrow> jsString"

definition upperLatin1 :: "codeUnit \<Rightarrow> jsString" where
  "upperLatin1 c =
     (if 0x61 \<le> c \<and> c \<le> 0x7A then [c - 0x20]
      else if c = 0xB5 then [0x39C]
      else if c = 0xDF then [0x53, 0x53]
      else if (0xE0 \<le> c \<and> c \<le> 0xF6) \<or> (0xF8 \<le> c \<and> c \<le> 0xFE) then [c - 0x20]
      else if c = 0xFF then [0x178]
      else [c])"

definition toUppercase :: "caseTable \<Rightarrow> codeUnit \<Rightarrow> jsString" where
  "toUppercase up ch = (if ch < 0x100 then upperLatin1 ch else up ch)"

text \<open>
  \<open>Canonicalize(ch)\<close> with \<open>IgnoreCase\<close> true and \<open>Unicode\<close> false: the upper-case
  mapping is used when it is a single code unit, except that a code unit from \<open>128\<close>
  upwards is never mapped to one below \<open>128\<close>.
\<close>

definition Canonicalize :: "caseTable \<Rightarrow> codeUnit \<Rightarrow> codeUnit" where
  "Canonicalize up ch =
     (case toUppercase up ch of
        [cu] \<Rightarrow> if 128 \<le> ch \<and> cu < 128 then ch else cu
      | _ \<Rightarrow> ch)"

text \<open>The members of the class \<open>[aeiou]\<close>.\<close>

definition classAEIOU :: "codeUnit list" where
  "classAEIOU = utf16 ''aeiou''"

text \<open>
  \<open>CharacterSetMatcher\<close>: the code unit matches when some member of the class has the
  same canonical form.
\<close>

definition characterSetMatcher :: "caseTable \<Rightarrow> codeUnit \<Rightarrow> bool" where
  "characterSetMatcher up ch =
     list_ex (\<lambda>a. Canonicalize up a = Canonicalize up ch) classAEIOU"

text \<open>
  \<open>RegExp.prototype.test\<close> for a pattern that is one class atom, with neither \<open>g\<close> nor
  \<open>y\<close>: the match is tried at each index from \<open>0\<close> on and the first success ends the
  search. The literal is evaluated afresh in each round of the loop, so no \<open>lastIndex\<close>
  is carried over.
\<close>

fun regExpTest :: "caseTable \<Rightarrow> jsString \<Rightarrow> bool" where
  "regExpTest up [] = False"
| "regExpTest up (c # s) = (if characterSetMatcher up c then True else regExpTest up s)"

subsection \<open>The function\<close>

text \<open>
  The loop, with the variable \<open>points\<close> as an accumulator. The numbers of the language
  are doubles; the sum stays an exact integer below \<open>2 ^ 53\<close>, which no string of an
  engine reaches, and is modelled as \<open>int\<close>.
\<close>

fun forOf :: "caseTable \<Rightarrow> jsString list \<Rightarrow> int \<Rightarrow> int" where
  "forOf up [] points = points"
| "forOf up (char # rest) points =
     forOf up rest (points + (if regExpTest up char then 1 else 2))"

definition pointsForWord :: "caseTable \<Rightarrow> jsValue \<Rightarrow> jsError + int" where
  "pointsForWord up word =
     (case getIterator word of
        Inl e \<Rightarrow> Inl e
      | Inr chars \<Rightarrow> Inr (forOf up chars 0))"

text \<open>
  A few rows of the upper-case table above \<open>0xFF\<close>, for evaluating the function at
  concrete strings: dotless i and long s, whose upper-case forms are the ASCII letters
  \<open>I\<close> and \<open>S\<close>, the Greek alpha and the Cyrillic a.
\<close>

definition upperExcerpt :: caseTable where
  "upperExcerpt c =
     (if c = 0x131 then [0x49]
      else if c = 0x17F then [0x53]
      else if c = 0x3B1 then [0x391]
      else if c = 0x430 then [0x410]
      else [c])"

subsection \<open>The function over a store of objects\<close>

text \<open>
  The same function with the objects it touches made explicit. A regular expression is an
  object with flags and a property \<open>lastIndex\<close>; \<open>RegExp.prototype.test\<close> reads
  \<open>lastIndex\<close> and writes it when the flag \<open>g\<close> or \<open>y\<close> is set, and throws a
  \<open>TypeError\<close> when its receiver is not such an object. The pattern of every object is the
  class \<open>[aeiou]\<close>, the only pattern of the program. The store maps addresses to objects;
  the addresses from \<open>fresh\<close> on are free.
\<close>

record regExpObject =
  ignoreCaseFlag :: bool
  globalFlag :: bool
  stickyFlag :: bool
  lastIndex :: nat

record store =
  heap :: "nat \<Rightarrow> regExpObject option"
  fresh :: nat

text \<open>
  Evaluating the literal \<open>/[aeiou]/i\<close> creates a new object each time it is
  evaluated.
\<close>

definition regExpLiteral :: "store \<Rightarrow> nat \<times> store" where
  "regExpLiteral st =
     (fresh st,
      st\<lparr>heap := (heap st)(fresh st \<mapsto>
            \<lparr>ignoreCaseFlag = True, globalFlag = False, stickyFlag = False, lastIndex = 0\<rparr>),
         fresh := Suc (fresh st)\<rparr>)"

text \<open>
  The class atom with and without the flag \<open>i\<close>, the search for the first match from
  an index on, and the single attempt at that index that the flag \<open>y\<close> asks for. Each
  gives the index after the match.
\<close>

definition classMatcher :: "caseTable \<Rightarrow> bool \<Rightarrow> codeUnit \<Rightarrow> bool" where
  "classMatcher up ic ch = (if ic then characterSetMatcher up ch else List.member classAEIOU ch)"

fun matchFrom :: "caseTable \<Rightarrow> bool \<Rightarrow> jsString \<Rightarrow> nat \<Rightarrow> nat option" where
  "matchFrom up ic [] i = None"
| "matchFrom up ic (c # s) i =
     (if classMatcher up ic c then Some (Suc i) else matchFrom up ic s (Suc i))"

definition matchAt :: "caseTable \<Rightarrow> bool \<Rightarrow> jsString \<Rightarrow> nat \<Rightarrow> nat option" where
  "matchAt up ic s i =
     (case s of [] \<Rightarrow> None | c # _ \<Rightarrow> if classMatcher up ic c then Some (Suc i) else None)"

text \<open>
  \<open>RegExpBuiltinExec\<close>, as \<open>test\<close> uses it: the search starts at \<open>lastIndex\<close> under
  \<open>g\<close> or \<open>y\<close> and at \<open>0\<close> otherwise; under \<open>g\<close> or \<open>y\<close> a success stores the
  index after the match in \<open>lastIndex\<close> and a failure stores \<open>0\<close>.
\<close>

definition setLastIndex :: "nat \<Rightarrow> nat \<Rightarrow> store \<Rightarrow> store" where
  "setLastIndex r i st =
     (case heap st r of
        None \<Rightarrow> st
      | Some obj \<Rightarrow> st\<lparr>heap := (heap st)(r \<mapsto> obj\<lparr>lastIndex := i\<rparr>)\<rparr>)"

definition regExpBuiltinExec ::
  "caseTable \<Rightarrow> nat \<Rightarrow> jsString \<Rightarrow> store \<Rightarrow> (jsError + bool) \<times> store" where
  "regExpBuiltinExec up r s st =
     (case heap st r of
        None \<Rightarrow> (Inl TypeError, st)
      | Some obj \<Rightarrow>
          (let tracked = (globalFlag obj \<or> stickyFlag obj);
               start = (if tracked then lastIndex obj else 0)
           in if length s < start
              then (Inr False, if tracked then setLastIndex r 0 st else st)
              else
                (case (if stickyFlag obj
                       then matchAt up (ignoreCaseFlag obj) (drop start s) start
                       else matchFrom up (ignoreCaseFlag obj) (drop start s) start) of
                   None \<Rightarrow> (Inr False, if tracked then setLastIndex r 0 st else st)
                 | Some e \<Rightarrow> (Inr True, if tracked then setLastIndex r e st else st))))"

text \<open>
  The loop and the function, threading the store.
\<close>

fun forOfStore ::
  "caseTable \<Rightarrow> jsString list \<Rightarrow> int \<Rightarrow> store \<Rightarrow> (jsError + int) \<times> store" where
  "forOfStore up [] points st = (Inr points, st)"
| "forOfStore up (char # rest) points st =
     (case regExpLiteral st of
        (r, st1) \<Rightarrow>
          (case regExpBuiltinExec up r char st1 of
             (Inl e, st2) \<Rightarrow> (Inl e, st2)
           | (Inr found, st2) \<Rightarrow>
               forOfStore up rest (points + (if found then 1 else 2)) st2))"

definition pointsForWordStore ::
  "caseTable \<Rightarrow> jsValue \<Rightarrow> store \<Rightarrow> (jsError + int) \<times> store" where
  "pointsForWordStore up word st =
     (case getIterator word of
        Inl e \<Rightarrow> (Inl e, st)
      | Inr chars \<Rightarrow> forOfStore up chars 0 st)"

text \<open>
  A store that holds one object already, a regular expression with the flag \<open>g\<close> whose
  \<open>lastIndex\<close> is \<open>1\<close>.
\<close>

definition sharedStore :: store where
  "sharedStore =
     \<lparr>heap = (\<lambda>a. None)(0 \<mapsto>
        \<lparr>ignoreCaseFlag = True, globalFlag = True, stickyFlag = False, lastIndex = 1\<rparr>),
      fresh = 1\<rparr>"

subsection \<open>The words of the specification\<close>

text \<open>
  The glossary of the specification: a vowel is one of a, e, i, o, u, in either case. A
  character is what the loop variable \<open>char\<close> holds, a string of one or two code units.
\<close>

definition vowelUnit :: "codeUnit \<Rightarrow> bool" where
  "vowelUnit c = (c \<in> set (utf16 ''aeiouAEIOU''))"

definition vowelCharacter :: "jsString \<Rightarrow> bool" where
  "vowelCharacter ch = (case ch of [c] \<Rightarrow> vowelUnit c | _ \<Rightarrow> False)"

text \<open>
  The two strings of a concatenation meet inside a surrogate pair: the first ends with a
  lead surrogate and the second begins with a trail surrogate.
\<close>

definition splitsPair :: "jsString \<Rightarrow> jsString \<Rightarrow> bool" where
  "splitsPair w1 w2 =
     (w1 \<noteq> [] \<and> w2 \<noteq> [] \<and> isLeadSurrogate (last w1) \<and> isTrailSurrogate (hd w2))"




subsection \<open>Case conversion of strings\<close>

text \<open>
  \<open>String.prototype.toUpperCase\<close> and \<open>String.prototype.toLowerCase\<close>, for strings
  whose code units are all below \<open>0x100\<close>, where the Unicode mapping is written out in
  full (\<open>upperLatin1\<close> above, \<open>lowerLatin1\<close> here). On any other string the model has no
  answer and returns \<open>None\<close>.
\<close>

definition lowerLatin1 :: "codeUnit \<Rightarrow> jsString" where
  "lowerLatin1 c =
     (if (0x41 \<le> c \<and> c \<le> 0x5A) \<or> (0xC0 \<le> c \<and> c \<le> 0xD6) \<or> (0xD8 \<le> c \<and> c \<le> 0xDE)
      then [c + 0x20]
      else [c])"

definition toUpperCase :: "jsString \<Rightarrow> jsString option" where
  "toUpperCase s =
     (if list_all (\<lambda>c. c < 0x100) s then Some (concat (map upperLatin1 s)) else None)"

definition toLowerCase :: "jsString \<Rightarrow> jsString option" where
  "toLowerCase s =
     (if list_all (\<lambda>c. c < 0x100) s then Some (concat (map lowerLatin1 s)) else None)"

text \<open>
  The lower-case form of one character. Above \<open>0xFF\<close> it is read from the engine's
  table, a parameter \<open>lw\<close> that takes the character as a string of one or two code units.
\<close>

type_synonym characterTable = "jsString \<Rightarrow> jsString"

definition aboveLatin1 :: "jsString \<Rightarrow> bool" where
  "aboveLatin1 ch = (case ch of [c] \<Rightarrow> 0x100 \<le> c | _ \<Rightarrow> True)"

definition toLowerCaseChar :: "characterTable \<Rightarrow> jsString \<Rightarrow> jsString" where
  "toLowerCaseChar lw ch =
     (case ch of
        [c] \<Rightarrow> if c < 0x100 then lowerLatin1 c else lw ch
      | _ \<Rightarrow> lw ch)"

text \<open>
  The output as the specification words it: the sum over all characters of \<open>1\<close> if the
  character, lower-cased, is one of a, e, i, o, u, and of \<open>2\<close> otherwise.
\<close>

definition lowerVowels :: "jsString list" where
  "lowerVowels = map (\<lambda>c. [c]) (utf16 ''aeiou'')"

definition score_spec :: "characterTable \<Rightarrow> jsString \<Rightarrow> int" where
  "score_spec lw w =
     sum_list (map (\<lambda>ch. if toLowerCaseChar lw ch \<in> set lowerVowels then 1 else 2)
       (stringIterator w))"

text \<open>
  A few rows of the lower-case table above \<open>0xFF\<close>: capital I with dot above, whose
  lower-case form is \<open>i\<close> followed by a combining dot, the Kelvin sign, whose lower-case
  form is the ASCII letter \<open>k\<close>, and the Greek capital alpha.
\<close>

definition lowerExcerpt :: characterTable where
  "lowerExcerpt ch =
     (if ch = [0x130] then [0x69, 0x307]
      else if ch = [0x212A] then [0x6B]
      else if ch = [0x391] then [0x3B1]
      else ch)"

section \<open>Properties\<close>

subsection \<open>The string iterator\<close>

lemma stringIterator_shape:
  "ch \<in> set (stringIterator w) \<Longrightarrow>
     (\<exists>c. ch = [c]) \<or> (\<exists>h l. ch = [h, l] \<and> isLeadSurrogate h \<and> isTrailSurrogate l)"
  by (induction w rule: stringIterator.induct) (auto split: if_splits)

lemma concat_stringIterator: "concat (stringIterator w) = w"
  by (induction w rule: stringIterator.induct) auto

lemma length_stringIterator: "length (stringIterator w) \<le> length w"
  by (induction w rule: stringIterator.induct) auto


lemma stringIterator_append:
  "\<not> splitsPair w1 w2 \<Longrightarrow> stringIterator (w1 @ w2) = stringIterator w1 @ stringIterator w2"
proof (induction w1 rule: stringIterator.induct)
  case 1
  then show ?case by simp
next
  case (2 c)
  then show ?case by (cases w2) (auto simp: splitsPair_def)
next
  case (3 c d rest)
  show ?case
  proof (cases "isLeadSurrogate c \<and> isTrailSurrogate d")
    case True
    have "\<not> splitsPair rest w2"
      using "3.prems" by (auto simp: splitsPair_def)
    with True "3.IH"(1) show ?thesis by simp
  next
    case False
    have "\<not> splitsPair (d # rest) w2"
      using "3.prems" by (auto simp: splitsPair_def)
    with False "3.IH"(2) show ?thesis by auto
  qed
qed

lemma stringIterator_units:
  "list_all (\<lambda>c. \<not> isLeadSurrogate c) w \<Longrightarrow> stringIterator w = map (\<lambda>c. [c]) w"
  by (induction w rule: stringIterator.induct) auto

subsection \<open>The matcher\<close>

lemma Canonicalize_nonascii: "128 \<le> c \<Longrightarrow> 128 \<le> Canonicalize up c"
  by (auto simp: Canonicalize_def not_less split: list.splits) 

lemma upperLatin1_ascii:
  assumes "c < 128"
  shows "upperLatin1 c = (if 0x61 \<le> c \<and> c \<le> 0x7A then [c - 0x20] else [c])"
proof -
  have "c \<noteq> 0xB5" "c \<noteq> 0xDF" "\<not> 0xE0 \<le> c" "\<not> 0xF8 \<le> c" "c \<noteq> 0xFF"
    using assms by unat_arith+
  then show ?thesis by (simp add: upperLatin1_def)
qed

lemma Canonicalize_ascii:
  assumes "c < 128"
  shows "Canonicalize up c = (if 0x61 \<le> c \<and> c \<le> 0x7A then c - 0x20 else c)"
proof -
  have "c < 0x100" "\<not> 128 \<le> c" using assms by unat_arith+
  then show ?thesis
    by (simp add: Canonicalize_def toUppercase_def upperLatin1_ascii [OF assms])
qed

lemma Canonicalize_class:
  "map (Canonicalize up) classAEIOU = [0x41, 0x45, 0x49, 0x4F, 0x55]"
  by (simp add: classAEIOU_def utf16_def Canonicalize_ascii)

lemma characterSetMatcher_canon:
  "characterSetMatcher up c \<longleftrightarrow> Canonicalize up c \<in> {0x41, 0x45, 0x49, 0x4F, 0x55}"
proof -
  have "characterSetMatcher up c \<longleftrightarrow> Canonicalize up c \<in> set (map (Canonicalize up) classAEIOU)"
    unfolding characterSetMatcher_def list_ex_iff set_map image_iff by (metis (no_types))
  then show ?thesis by (simp only: Canonicalize_class) auto
qed

lemma characterSetMatcher_iff:
  "characterSetMatcher up c \<longleftrightarrow> c \<in> {0x61, 0x65, 0x69, 0x6F, 0x75, 0x41, 0x45, 0x49, 0x4F, 0x55}"
proof (cases "c < 128")
  case True
  show ?thesis
  proof (cases "0x61 \<le> c \<and> c \<le> 0x7A")
    case low: True
    then have "c - 0x20 = 0x41 \<longleftrightarrow> c = 0x61" "c - 0x20 = 0x45 \<longleftrightarrow> c = 0x65"
      "c - 0x20 = 0x49 \<longleftrightarrow> c = 0x69" "c - 0x20 = 0x4F \<longleftrightarrow> c = 0x6F"
      "c - 0x20 = 0x55 \<longleftrightarrow> c = 0x75"
      by unat_arith+
    moreover from low have "c \<noteq> 0x41" "c \<noteq> 0x45" "c \<noteq> 0x49" "c \<noteq> 0x4F" "c \<noteq> 0x55"
      by unat_arith+
    ultimately show ?thesis
      using low by (simp add: characterSetMatcher_canon Canonicalize_ascii [OF True])
  next
    case other: False
    then have "c \<noteq> 0x61" "c \<noteq> 0x65" "c \<noteq> 0x69" "c \<noteq> 0x6F" "c \<noteq> 0x75"
      by unat_arith+
    moreover have "Canonicalize up c = c"
      by (simp only: Canonicalize_ascii [OF True] if_not_P [OF other])
    ultimately show ?thesis
      by (simp add: characterSetMatcher_canon)
  qed
next
  case False
  then have ge: "128 \<le> c" by simp
  from Canonicalize_nonascii [OF ge, of up]
  have "Canonicalize up c \<notin> {0x41, 0x45, 0x49, 0x4F, 0x55}"
    by unat_arith
  moreover from ge have "c \<notin> {0x61, 0x65, 0x69, 0x6F, 0x75, 0x41, 0x45, 0x49, 0x4F, 0x55}"
    by unat_arith
  ultimately show ?thesis by (simp only: characterSetMatcher_canon)
qed

subsection \<open>The score\<close>

lemma vowelUnit_iff:
  "vowelUnit c \<longleftrightarrow> c \<in> {0x61, 0x65, 0x69, 0x6F, 0x75, 0x41, 0x45, 0x49, 0x4F, 0x55}"
  by (simp add: vowelUnit_def utf16_def)

lemma characterSetMatcher_vowelUnit: "characterSetMatcher up c = vowelUnit c"
  by (simp only: characterSetMatcher_iff vowelUnit_iff)

lemma regExpTest_iff: "regExpTest up s \<longleftrightarrow> list_ex vowelUnit s"
  by (induction s) (simp_all add: characterSetMatcher_vowelUnit)

lemma surrogate_not_vowel:
  "isLeadSurrogate c \<or> isTrailSurrogate c \<Longrightarrow> \<not> vowelUnit c"
  unfolding isLeadSurrogate_def isTrailSurrogate_def vowelUnit_iff by unat_arith

lemma regExpTest_character:
  assumes "ch \<in> set (stringIterator w)"
  shows "regExpTest up ch = vowelCharacter ch"
  using stringIterator_shape [OF assms]
  by (auto simp: regExpTest_iff vowelCharacter_def surrogate_not_vowel)

lemma forOf_sum:
  "forOf up chars points =
     points + sum_list (map (\<lambda>ch. if regExpTest up ch then 1 else 2) chars)"
  by (induction chars arbitrary: points) simp_all

lemma pointsForWord_sum:
  "pointsForWord up (JSString w) =
     Inr (sum_list (map (\<lambda>ch. if vowelCharacter ch then 1 else 2) (stringIterator w)))"
proof -
  have "map (\<lambda>ch. if regExpTest up ch then 1 else 2) (stringIterator w) =
        map (\<lambda>ch. if vowelCharacter ch then (1::int) else 2) (stringIterator w)"
    by (rule map_cong) (simp_all add: regExpTest_character)
  then have "forOf up (stringIterator w) 0 =
      sum_list (map (\<lambda>ch. if vowelCharacter ch then 1 else 2) (stringIterator w))"
    by (simp only: forOf_sum add_0)
  then show ?thesis
    by (simp only: pointsForWord_def getIterator.simps sum.case)
qed

subsection \<open>Lower-casing a character\<close>

lemma shift_up: "(c::codeUnit) + 0x20 = k \<longleftrightarrow> c = k - 0x20"
  by (simp add: eq_diff_eq)

lemma lowerLatin1_vowel:
  assumes "c < 0x100"
  shows "lowerLatin1 c \<in> set lowerVowels \<longleftrightarrow> vowelUnit c"
proof -
  consider (upper) "0x41 \<le> c \<and> c \<le> 0x5A"
    | (accented) "(0xC0 \<le> c \<and> c \<le> 0xD6) \<or> (0xD8 \<le> c \<and> c \<le> 0xDE)"
    | (other) "\<not> (0x41 \<le> c \<and> c \<le> 0x5A)" "\<not> (0xC0 \<le> c \<and> c \<le> 0xD6)" "\<not> (0xD8 \<le> c \<and> c \<le> 0xDE)"
    by blast
  then show ?thesis
  proof cases
    case upper
    then have low: "lowerLatin1 c = [c + 0x20]"
      by (simp add: lowerLatin1_def)
    from upper have "c \<noteq> 0x61" "c \<noteq> 0x65" "c \<noteq> 0x69" "c \<noteq> 0x6F" "c \<noteq> 0x75"
      by unat_arith+
    then show ?thesis
      by (simp add: low lowerVowels_def utf16_def vowelUnit_iff shift_up)
  next
    case accented
    then have low: "lowerLatin1 c = [c + 0x20]"
      by (simp add: lowerLatin1_def)
    from accented have "c \<noteq> 0x61" "c \<noteq> 0x65" "c \<noteq> 0x69" "c \<noteq> 0x6F" "c \<noteq> 0x75"
      "c \<noteq> 0x41" "c \<noteq> 0x45" "c \<noteq> 0x49" "c \<noteq> 0x4F" "c \<noteq> 0x55"
      by unat_arith+
    then show ?thesis
      by (simp add: low lowerVowels_def utf16_def vowelUnit_iff shift_up)
  next
    case other
    then have low: "lowerLatin1 c = [c]"
      by (simp add: lowerLatin1_def)
    from other(1) have "c \<noteq> 0x41" "c \<noteq> 0x45" "c \<noteq> 0x49" "c \<noteq> 0x4F" "c \<noteq> 0x55"
      by unat_arith+
    then show ?thesis
      by (simp add: low lowerVowels_def utf16_def vowelUnit_iff)
  qed
qed

lemma toLowerCaseChar_vowel:
  assumes "\<forall>ch. aboveLatin1 ch \<longrightarrow> lw ch \<notin> set lowerVowels"
  shows "toLowerCaseChar lw ch \<in> set lowerVowels \<longleftrightarrow> vowelCharacter ch"
proof (cases "aboveLatin1 ch")
  case True
  then have "toLowerCaseChar lw ch = lw ch"
    by (auto simp: toLowerCaseChar_def aboveLatin1_def split: list.splits)
  moreover have "\<not> vowelCharacter ch"
  proof
    assume "vowelCharacter ch"
    then obtain c where ch: "ch = [c]" and v: "vowelUnit c"
      by (auto simp: vowelCharacter_def split: list.splits)
    from True ch have "0x100 \<le> c" by (simp add: aboveLatin1_def)
    with v show False unfolding vowelUnit_iff by unat_arith
  qed
  ultimately show ?thesis using assms True by simp
next
  case False
  then obtain c where ch: "ch = [c]" and c: "c < 0x100"
    by (auto simp: aboveLatin1_def not_le split: list.splits)
  then show ?thesis
    by (simp add: toLowerCaseChar_def vowelCharacter_def lowerLatin1_vowel)
qed

lemma lowerExcerpt_no_vowel: "aboveLatin1 ch \<Longrightarrow> lowerExcerpt ch \<notin> set lowerVowels"
proof -
  assume above: "aboveLatin1 ch"
  have "ch \<notin> set lowerVowels"
  proof
    assume "ch \<in> set lowerVowels"
    then obtain c where ch: "ch = [c]" and c: "c \<in> {0x61, 0x65, 0x69, 0x6F, 0x75}"
      by (auto simp: lowerVowels_def utf16_def)
    from above ch have "0x100 \<le> c" by (simp add: aboveLatin1_def)
    with c show False by unat_arith
  qed
  then show ?thesis
    by (simp add: lowerExcerpt_def lowerVowels_def utf16_def)
qed

subsection \<open>Case conversion below \<open>0x100\<close>\<close>

lemma shift_down: "(c::codeUnit) - 0x20 = k \<longleftrightarrow> c = k + 0x20"
  by (simp add: diff_eq_eq)

lemma latin1_not_lead: "c < 0x100 \<Longrightarrow> \<not> isLeadSurrogate c"
  unfolding isLeadSurrogate_def by unat_arith

lemma pointsForWord_units:
  assumes "list_all (\<lambda>c. \<not> isLeadSurrogate c) w"
  shows "pointsForWord up (JSString w) =
           Inr (sum_list (map (\<lambda>c. if vowelUnit c then 1 else 2) w))"
  by (simp add: pointsForWord_sum stringIterator_units [OF assms] comp_def vowelCharacter_def)

lemma upperLatin1_unit:
  assumes "c < 0x100" and "c \<noteq> 0xDF"
  shows "\<exists>u. upperLatin1 c = [u] \<and> \<not> isLeadSurrogate u \<and> vowelUnit u = vowelUnit c"
proof -
  consider (lower) "0x61 \<le> c \<and> c \<le> 0x7A"
    | (micro) "c = 0xB5"
    | (accented) "(0xE0 \<le> c \<and> c \<le> 0xF6) \<or> (0xF8 \<le> c \<and> c \<le> 0xFE)"
    | (y) "c = 0xFF"
    | (other) "\<not> (0x61 \<le> c \<and> c \<le> 0x7A)" "c \<noteq> 0xB5"
        "\<not> ((0xE0 \<le> c \<and> c \<le> 0xF6) \<or> (0xF8 \<le> c \<and> c \<le> 0xFE))" "c \<noteq> 0xFF"
    by blast
  then show ?thesis
  proof cases
    case lower
    then have u: "upperLatin1 c = [c - 0x20]"
      by (simp add: upperLatin1_def)
    from lower have "c - 0x20 < 0x100" by unat_arith
    then have "\<not> isLeadSurrogate (c - 0x20)" by (rule latin1_not_lead)
    moreover from lower have "c \<noteq> 0x81" "c \<noteq> 0x85" "c \<noteq> 0x89" "c \<noteq> 0x8F" "c \<noteq> 0x95"
      "c \<noteq> 0x41" "c \<noteq> 0x45" "c \<noteq> 0x49" "c \<noteq> 0x4F" "c \<noteq> 0x55"
      by unat_arith+
    then have "vowelUnit (c - 0x20) = vowelUnit c"
      by (simp add: vowelUnit_iff shift_down)
    ultimately show ?thesis using u by simp
  next
    case micro
    then show ?thesis
      by (simp add: upperLatin1_def vowelUnit_iff isLeadSurrogate_def)
  next
    case accented
    then have ne: "\<not> (0x61 \<le> c \<and> c \<le> 0x7A)" "c \<noteq> 0xB5" by unat_arith+
    with accented assms(2) have u: "upperLatin1 c = [c - 0x20]"
      by (simp add: upperLatin1_def)
    from accented have "c - 0x20 < 0x100" by unat_arith
    then have "\<not> isLeadSurrogate (c - 0x20)" by (rule latin1_not_lead)
    moreover from accented have "c \<noteq> 0x81" "c \<noteq> 0x85" "c \<noteq> 0x89" "c \<noteq> 0x8F" "c \<noteq> 0x95"
      "c \<noteq> 0x61" "c \<noteq> 0x65" "c \<noteq> 0x69" "c \<noteq> 0x6F" "c \<noteq> 0x75"
      "c \<noteq> 0x41" "c \<noteq> 0x45" "c \<noteq> 0x49" "c \<noteq> 0x4F" "c \<noteq> 0x55"
      by unat_arith+
    then have "vowelUnit (c - 0x20) = vowelUnit c"
      by (simp add: vowelUnit_iff shift_down)
    ultimately show ?thesis using u by simp
  next
    case y
    then show ?thesis
      by (simp add: upperLatin1_def vowelUnit_iff isLeadSurrogate_def)
  next
    case other
    with assms(2) have "upperLatin1 c = [c]"
      by (simp add: upperLatin1_def)
    with latin1_not_lead [OF assms(1)] show ?thesis by simp
  qed
qed

lemma lowerLatin1_unit:
  assumes "c < 0x100"
  shows "\<exists>l. lowerLatin1 c = [l] \<and> \<not> isLeadSurrogate l \<and> vowelUnit l = vowelUnit c"
proof (cases "(0x41 \<le> c \<and> c \<le> 0x5A) \<or> (0xC0 \<le> c \<and> c \<le> 0xD6) \<or> (0xD8 \<le> c \<and> c \<le> 0xDE)")
  case True
  then have l: "lowerLatin1 c = [c + 0x20]"
    by (simp add: lowerLatin1_def)
  from True have "c + 0x20 < 0x100" by unat_arith
  then have "\<not> isLeadSurrogate (c + 0x20)" by (rule latin1_not_lead)
  moreover from True have "c \<noteq> 0x21" "c \<noteq> 0x25" "c \<noteq> 0x29" "c \<noteq> 0x2F" "c \<noteq> 0x35"
    "c \<noteq> 0x61" "c \<noteq> 0x65" "c \<noteq> 0x69" "c \<noteq> 0x6F" "c \<noteq> 0x75"
    by unat_arith+
  then have "vowelUnit (c + 0x20) = vowelUnit c"
    by (auto simp: vowelUnit_iff shift_up)
  ultimately show ?thesis using l by simp
next
  case False
  then have "lowerLatin1 c = [c]"
    by (simp add: lowerLatin1_def)
  with latin1_not_lead [OF assms] show ?thesis by simp
qed

lemma upperLatin1_string:
  assumes "\<forall>c\<in>set w. c < 0x100 \<and> c \<noteq> 0xDF"
  shows "list_all (\<lambda>c. \<not> isLeadSurrogate c) (concat (map upperLatin1 w)) \<and>
         sum_list (map (\<lambda>c. if vowelUnit c then 1 else 2) (concat (map upperLatin1 w))) =
         (sum_list (map (\<lambda>c. if vowelUnit c then 1 else 2) w) :: int)"
  using assms
proof (induction w)
  case Nil
  then show ?case by simp
next
  case (Cons c w)
  then have "c < 0x100" "c \<noteq> 0xDF" by simp_all
  then obtain u where "upperLatin1 c = [u]" "\<not> isLeadSurrogate u" "vowelUnit u = vowelUnit c"
    using upperLatin1_unit by blast
  with Cons show ?case by simp
qed

lemma lowerLatin1_string:
  assumes "\<forall>c\<in>set w. c < 0x100"
  shows "list_all (\<lambda>c. \<not> isLeadSurrogate c) (concat (map lowerLatin1 w)) \<and>
         sum_list (map (\<lambda>c. if vowelUnit c then 1 else 2) (concat (map lowerLatin1 w))) =
         (sum_list (map (\<lambda>c. if vowelUnit c then 1 else 2) w) :: int)"
  using assms
proof (induction w)
  case Nil
  then show ?case by simp
next
  case (Cons c w)
  then have "c < 0x100" by simp
  then obtain l where "lowerLatin1 c = [l]" "\<not> isLeadSurrogate l" "vowelUnit l = vowelUnit c"
    using lowerLatin1_unit by blast
  with Cons show ?case by simp
qed

subsection \<open>Sums of ones and twos\<close>

lemma sum_points_bounds:
  fixes xs :: "'a list"
  shows "int (length xs) \<le> sum_list (map (\<lambda>x. if P x then 1 else 2) xs) \<and>
         sum_list (map (\<lambda>x. if P x then 1 else 2) xs) \<le> 2 * int (length xs)"
  by (induction xs) auto

lemma sum_points_max:
  fixes xs :: "'a list"
  shows "sum_list (map (\<lambda>x. if P x then 1 else 2) xs) = 2 * int (length xs) \<longleftrightarrow>
         (\<forall>x\<in>set xs. \<not> P x)"
proof (induction xs)
  case Nil
  then show ?case by simp
next
  case (Cons x xs)
  from sum_points_bounds [of xs P]
  have "sum_list (map (\<lambda>x. if P x then 1 else 2) xs) \<le> 2 * int (length xs)" by simp
  with Cons show ?case by auto
qed

subsection \<open>Characters that are neither letters nor surrogates\<close>



subsection \<open>Surrogate pairs inside a word\<close>

lemma lead_not_trail: "isLeadSurrogate c \<Longrightarrow> \<not> isTrailSurrogate c"
  unfolding isLeadSurrogate_def isTrailSurrogate_def by unat_arith

lemma stringIterator_pair:
  assumes "isLeadSurrogate hi" and "isTrailSurrogate lo"
  shows "stringIterator (w1 @ hi # lo # w2) =
           stringIterator w1 @ [hi, lo] # stringIterator w2"
proof -
  have "\<not> splitsPair w1 (hi # lo # w2)"
    using lead_not_trail [OF assms(1)] by (simp add: splitsPair_def)
  then have "stringIterator (w1 @ hi # lo # w2) =
      stringIterator w1 @ stringIterator (hi # lo # w2)"
    by (rule stringIterator_append)
  with assms show ?thesis by simp
qed

lemma score_le_units:
  "sum_list (map (\<lambda>ch. if vowelCharacter ch then 1 else 2) (stringIterator w))
     \<le> 2 * int (length w)"
  using sum_points_bounds [of "stringIterator w" vowelCharacter] length_stringIterator [of w]
  by linarith

subsection \<open>The store\<close>

lemma matchFrom_None: "matchFrom up True s i = None \<longleftrightarrow> \<not> regExpTest up s"
  by (induction s arbitrary: i) (simp_all add: classMatcher_def)

lemma exec_literal:
  assumes "regExpLiteral st = (r, st1)"
  shows "regExpBuiltinExec up r char st1 = (Inr (regExpTest up char), st1)"
proof -
  from assms have "heap st1 r =
      Some \<lparr>ignoreCaseFlag = True, globalFlag = False, stickyFlag = False, lastIndex = 0\<rparr>"
    by (auto simp: regExpLiteral_def)
  then show ?thesis
    using matchFrom_None [of up char 0]
    by (cases "matchFrom up True char 0") (simp_all add: regExpBuiltinExec_def)
qed

lemma literal_frame:
  assumes "regExpLiteral st = (r, st1)"
  shows "fresh st1 = Suc (fresh st)" and "a < fresh st \<Longrightarrow> heap st1 a = heap st a"
  using assms by (auto simp: regExpLiteral_def)

lemma forOfStore_pure:
  "\<exists>st'. forOfStore up chars points st = (Inr (forOf up chars points), st') \<and>
          fresh st \<le> fresh st' \<and> (\<forall>a. a < fresh st \<longrightarrow> heap st' a = heap st a)"
proof (induction chars arbitrary: points st)
  case Nil
  then show ?case by simp
next
  case (Cons char rest)
  obtain r st1 where lit: "regExpLiteral st = (r, st1)"
    by (cases "regExpLiteral st")
  let ?p = "points + (if regExpTest up char then 1 else 2)"
  from Cons [of ?p st1] obtain st' where
    run: "forOfStore up rest ?p st1 = (Inr (forOf up rest ?p), st')" and
    grow: "fresh st1 \<le> fresh st'" and
    frame: "\<forall>a. a < fresh st1 \<longrightarrow> heap st' a = heap st1 a"
    by blast
  have "forOfStore up (char # rest) points st = (Inr (forOf up (char # rest) points), st')"
    by (simp add: lit exec_literal [OF lit] run)
  moreover have "fresh st \<le> fresh st'"
    using grow literal_frame(1) [OF lit] by simp
  moreover have "\<forall>a. a < fresh st \<longrightarrow> heap st' a = heap st a"
    using frame literal_frame [OF lit] by simp
  ultimately show ?case by blast
qed

text \<open>
  The store can change: \<open>test\<close> on the object of \<open>sharedStore\<close> moves its
  \<open>lastIndex\<close>.
\<close>

lemma shared_regex_writes:
  "fst (regExpBuiltinExec up 0 (utf16 ''tea'') sharedStore) = Inr True \<and>
   heap (snd (regExpBuiltinExec up 0 (utf16 ''tea'') sharedStore)) 0 =
     Some \<lparr>ignoreCaseFlag = True, globalFlag = True, stickyFlag = False, lastIndex = 2\<rparr>"
  by (simp add: regExpBuiltinExec_def sharedStore_def setLastIndex_def classMatcher_def
      characterSetMatcher_vowelUnit vowelUnit_iff utf16_def numeral_2_eq_2)

subsection \<open>Evaluation at concrete strings\<close>

lemmas pointsForWord_eval =
  pointsForWord_def utf16_def characterSetMatcher_def classAEIOU_def Canonicalize_def
  toUppercase_def upperLatin1_def upperExcerpt_def isLeadSurrogate_def isTrailSurrogate_def

lemma score_mixed_case: "pointsForWord up (JSString (utf16 ''tEsT'')) = Inr 7"
  by (simp add: pointsForWord_eval)

lemma score_letter_E:
  "pointsForWord up (JSString (utf16 ''E'')) = Inr 1 \<and>
   pointsForWord up (JSString (utf16 ''e'')) = Inr 1"
  by (simp add: pointsForWord_eval)

text \<open>
  A missing argument makes the loop throw before its first round.
\<close>

lemma pointsForWord_undefined: "pointsForWord up JSUndefined = Inl TypeError"
  by (simp add: pointsForWord_def)

section \<open>The claims\<close>

text \<open>
  Claim C1. For every word \<open>w\<close>, \<open>pointsForWord w\<close> is the sum over the characters of
  \<open>w\<close> of \<open>1\<close> if the character, lower-cased, is one of a, e, i, o, u, and of \<open>2\<close>
  otherwise. The characters of \<open>w\<close> are the values the loop receives. The part of the
  lower-case table that belongs to the engine is taken as it is in Unicode: it sends no
  character above \<open>0xFF\<close> to a single ASCII vowel.
\<close>

theorem pointsForWord_score_spec:
  assumes "\<forall>ch. aboveLatin1 ch \<longrightarrow> lw ch \<notin> set lowerVowels"
  shows "pointsForWord up (JSString w) = Inr (score_spec lw w)"
  by (simp only: pointsForWord_sum score_spec_def toLowerCaseChar_vowel [OF assms])

theorem pointsForWord_score_spec_witness:
  "\<not> (\<exists>ch. aboveLatin1 ch \<and> lowerExcerpt ch \<in> set lowerVowels) \<and>
   pointsForWord upperExcerpt (JSString [0x74, 0x45, 0x73, 0x54, 0x130, 0xD83D, 0xDE00]) =
     Inr (score_spec lowerExcerpt [0x74, 0x45, 0x73, 0x54, 0x130, 0xD83D, 0xDE00]) \<and>
   score_spec lowerExcerpt [0x74, 0x45, 0x73, 0x54, 0x130, 0xD83D, 0xDE00] = 11"
proof -
  have h: "\<forall>ch. aboveLatin1 ch \<longrightarrow> lowerExcerpt ch \<notin> set lowerVowels"
    by (simp add: lowerExcerpt_no_vowel)
  have "score_spec lowerExcerpt [0x74, 0x45, 0x73, 0x54, 0x130, 0xD83D, 0xDE00] = 11"
    by (simp add: score_spec_def toLowerCaseChar_def lowerLatin1_def lowerExcerpt_def
        lowerVowels_def utf16_def isLeadSurrogate_def isTrailSurrogate_def)
  with h pointsForWord_score_spec [OF h, of upperExcerpt "[0x74, 0x45, 0x73, 0x54, 0x130, 0xD83D, 0xDE00]"]
  show ?thesis by simp
qed

text \<open>
  Claim C2, as amended. For every word \<open>w\<close> whose code units are all below \<open>0x100\<close>
  and none of which is \<open>0xDF\<close> (sharp s), in particular for every ASCII word, \<open>w\<close>,
  its lower-case form and its upper-case form have the same score; \<open>"tEsT"\<close> scores
  \<open>7\<close>, and \<open>"E"\<close> and \<open>"e"\<close> both score \<open>1\<close>.
\<close>

theorem pointsForWord_case_invariant:
  assumes "\<forall>c\<in>set w. c < 0x100 \<and> c \<noteq> 0xDF"
  shows "(\<exists>l u. toLowerCase w = Some l \<and> toUpperCase w = Some u \<and>
            pointsForWord up (JSString w) = pointsForWord up (JSString l) \<and>
            pointsForWord up (JSString l) = pointsForWord up (JSString u)) \<and>
         pointsForWord up (JSString (utf16 ''tEsT'')) = Inr 7 \<and>
         pointsForWord up (JSString (utf16 ''E'')) = Inr 1 \<and>
         pointsForWord up (JSString (utf16 ''e'')) = Inr 1"
proof -
  from assms have latin: "list_all (\<lambda>c. c < 0x100) w"
    by (simp add: list_all_iff)
  then have plain: "list_all (\<lambda>c. \<not> isLeadSurrogate c) w"
    by (simp add: list_all_iff latin1_not_lead)
  from assms have low: "\<forall>c\<in>set w. c < 0x100" by simp
  have "pointsForWord up (JSString (concat (map lowerLatin1 w))) = pointsForWord up (JSString w)"
    using lowerLatin1_string [OF low] plain by (simp add: pointsForWord_units)
  moreover
  have "pointsForWord up (JSString (concat (map upperLatin1 w))) = pointsForWord up (JSString w)"
    using upperLatin1_string [OF assms] plain by (simp add: pointsForWord_units)
  ultimately show ?thesis
    using latin by (simp add: toLowerCase_def toUpperCase_def score_mixed_case score_letter_E)
qed

theorem pointsForWord_case_invariant_witness:
  "list_all (\<lambda>c. c < 0x100 \<and> c \<noteq> (0xDF :: codeUnit)) [0x74, 0x45, 0x73, 0x54, 0xE9] \<and>
   toLowerCase [0x74, 0x45, 0x73, 0x54, 0xE9] = Some [0x74, 0x65, 0x73, 0x74, 0xE9] \<and>
   toUpperCase [0x74, 0x45, 0x73, 0x54, 0xE9] = Some [0x54, 0x45, 0x53, 0x54, 0xC9] \<and>
   pointsForWord upperExcerpt (JSString [0x74, 0x45, 0x73, 0x54, 0xE9]) =
     pointsForWord upperExcerpt (JSString [0x74, 0x65, 0x73, 0x74, 0xE9]) \<and>
   pointsForWord upperExcerpt (JSString [0x74, 0x65, 0x73, 0x74, 0xE9]) =
     pointsForWord upperExcerpt (JSString [0x54, 0x45, 0x53, 0x54, 0xC9])"
proof -
  have h: "\<forall>c\<in>set [0x74, 0x45, 0x73, 0x54, 0xE9]. c < 0x100 \<and> c \<noteq> (0xDF :: codeUnit)"
    by simp
  have l: "toLowerCase [0x74, 0x45, 0x73, 0x54, 0xE9] = Some [0x74, 0x65, 0x73, 0x74, 0xE9]"
    by (simp add: toLowerCase_def lowerLatin1_def)
  have u: "toUpperCase [0x74, 0x45, 0x73, 0x54, 0xE9] = Some [0x54, 0x45, 0x53, 0x54, 0xC9]"
    by (simp add: toUpperCase_def upperLatin1_def)
  from pointsForWord_case_invariant [OF h, of upperExcerpt] h l u show ?thesis
    by simp
qed

text \<open>
  The claim as it stands, for every word, fails at sharp s: the upper-case form of the one
  character is \<open>"SS"\<close>, two consonants, and the score goes from \<open>2\<close> to \<open>4\<close>.
\<close>

theorem pointsForWord_case_invariant_counterexample:
  "toUpperCase [0xDF] = Some (utf16 ''SS'') \<and>
   pointsForWord upperExcerpt (JSString [0xDF]) = Inr 2 \<and>
   pointsForWord upperExcerpt (JSString (utf16 ''SS'')) = Inr 4 \<and>
   pointsForWord upperExcerpt (JSString [0xDF]) \<noteq>
     pointsForWord upperExcerpt (JSString (utf16 ''SS''))"
  by (simp add: toUpperCase_def pointsForWord_eval)

text \<open>
  Claim C3, as amended. For any two strings \<open>w1\<close> and \<open>w2\<close> that do not meet inside a
  surrogate pair (the first does not end with a lead surrogate, or the second does not
  begin with a trail surrogate), the score of the concatenation is the sum of the two
  scores.
\<close>

theorem pointsForWord_append:
  assumes "\<not> splitsPair w1 w2"
  shows "\<exists>p1 p2. pointsForWord up (JSString w1) = Inr p1 \<and>
           pointsForWord up (JSString w2) = Inr p2 \<and>
           pointsForWord up (JSString (w1 @ w2)) = Inr (p1 + p2)"
  by (simp add: pointsForWord_sum stringIterator_append [OF assms])

theorem pointsForWord_append_witness:
  "\<not> splitsPair [0x74, 0xD83D, 0xDE00] (utf16 ''Est'') \<and>
   pointsForWord upperExcerpt (JSString [0x74, 0xD83D, 0xDE00]) = Inr 4 \<and>
   pointsForWord upperExcerpt (JSString (utf16 ''Est'')) = Inr 5 \<and>
   pointsForWord upperExcerpt (JSString ([0x74, 0xD83D, 0xDE00] @ utf16 ''Est'')) = Inr 9"
proof -
  have h: "\<not> splitsPair [0x74, 0xD83D, 0xDE00] (utf16 ''Est'')"
    by (simp add: splitsPair_def utf16_def isLeadSurrogate_def isTrailSurrogate_def)
  have a: "pointsForWord upperExcerpt (JSString [0x74, 0xD83D, 0xDE00]) = Inr 4"
    by (simp add: pointsForWord_eval)
  have b: "pointsForWord upperExcerpt (JSString (utf16 ''Est'')) = Inr 5"
    by (simp add: pointsForWord_eval)
  from pointsForWord_append [OF h, of upperExcerpt] a b h show ?thesis
    by auto
qed

text \<open>
  The claim as it stands, for any two strings, fails where the two halves of a surrogate
  pair are concatenated: each half alone is one character worth \<open>2\<close>, and so is the
  pair.
\<close>

theorem pointsForWord_append_counterexample:
  "pointsForWord upperExcerpt (JSString [0xD83D]) = Inr 2 \<and>
   pointsForWord upperExcerpt (JSString [0xDE00]) = Inr 2 \<and>
   pointsForWord upperExcerpt (JSString ([0xD83D] @ [0xDE00])) = Inr 2 \<and>
   pointsForWord upperExcerpt (JSString ([0xD83D] @ [0xDE00])) \<noteq> Inr (2 + 2)"
  by (simp add: pointsForWord_eval)

text \<open>
  Claim C4. For every word \<open>w\<close> the score is at least \<open>0\<close> and at most twice the length
  of \<open>w\<close>, and it is twice the length exactly when \<open>w\<close> contains no vowel. The length
  of a word is the number of its characters, the values the loop receives; the upper bound
  holds for the number of code units as well.
\<close>

theorem pointsForWord_bounds:
  "\<exists>p. pointsForWord up (JSString w) = Inr p \<and> 0 \<le> p \<and>
       p \<le> 2 * int (length (stringIterator w)) \<and>
       p \<le> 2 * int (length w) \<and>
       (p = 2 * int (length (stringIterator w)) \<longleftrightarrow>
          (\<forall>ch\<in>set (stringIterator w). \<not> vowelCharacter ch))"
proof -
  let ?p = "sum_list (map (\<lambda>ch. if vowelCharacter ch then (1::int) else 2) (stringIterator w))"
  have low: "0 \<le> ?p"
    using sum_points_bounds [of "stringIterator w" vowelCharacter] by linarith
  have high: "?p \<le> 2 * int (length (stringIterator w))"
    using sum_points_bounds [of "stringIterator w" vowelCharacter] by simp
  have units: "?p \<le> 2 * int (length w)"
    using high length_stringIterator [of w] by linarith
  have "?p = 2 * int (length (stringIterator w)) \<longleftrightarrow>
        (\<forall>ch\<in>set (stringIterator w). \<not> vowelCharacter ch)"
    by (rule sum_points_max)
  with low high units show ?thesis
    by (simp only: pointsForWord_sum) blast
qed

theorem pointsForWord_bounds_witness:
  "pointsForWord upperExcerpt (JSString [0x68, 0x6D, 0x6D, 0xD83D, 0xDE00]) = Inr 8 \<and>
   (8::int) = 2 * int (length (stringIterator [0x68, 0x6D, 0x6D, 0xD83D, 0xDE00])) \<and>
   \<not> list_ex vowelCharacter (stringIterator [0x68, 0x6D, 0x6D, 0xD83D, 0xDE00]) \<and>
   pointsForWord upperExcerpt (JSString (utf16 ''tEsT'')) = Inr 7 \<and>
   (7::int) < 2 * int (length (stringIterator (utf16 ''tEsT''))) \<and>
   list_ex vowelCharacter (stringIterator (utf16 ''tEsT''))"
proof -
  have a: "pointsForWord upperExcerpt (JSString [0x68, 0x6D, 0x6D, 0xD83D, 0xDE00]) = Inr 8"
    by (simp add: pointsForWord_eval)
  have b: "pointsForWord upperExcerpt (JSString (utf16 ''tEsT'')) = Inr 7"
    by (simp add: pointsForWord_eval)
  from pointsForWord_bounds [of upperExcerpt "[0x68, 0x6D, 0x6D, 0xD83D, 0xDE00]"] a
  have "(8::int) = 2 * int (length (stringIterator [0x68, 0x6D, 0x6D, 0xD83D, 0xDE00])) \<and>
        \<not> list_ex vowelCharacter (stringIterator [0x68, 0x6D, 0x6D, 0xD83D, 0xDE00])"
    by (simp add: isLeadSurrogate_def isTrailSurrogate_def)
  moreover from pointsForWord_bounds [of upperExcerpt "utf16 ''tEsT''"] b
  have "(7::int) < 2 * int (length (stringIterator (utf16 ''tEsT''))) \<and>
        list_ex vowelCharacter (stringIterator (utf16 ''tEsT''))"
    by (simp add: utf16_def isLeadSurrogate_def isTrailSurrogate_def)
  ultimately show ?thesis using a b by simp
qed

text \<open>
  Claim C5. \<open>pointsForWord("test")\<close> is \<open>7\<close>.
\<close>

theorem pointsForWord_test: "pointsForWord up (JSString (utf16 ''test'')) = Inr 7"
  by (simp add: pointsForWord_eval)

text \<open>
  Claim C6. Applied to the empty string, \<open>pointsForWord\<close> returns \<open>0\<close>.
\<close>

theorem pointsForWord_empty: "pointsForWord up (JSString []) = Inr 0"
  by (simp add: pointsForWord_def)



text \<open>
  Claim C8. For every string the function returns an integer and throws nothing, it has no
  side effect and it is deterministic: run in any store, it ends with \<open>Inr n\<close>, every
  object that was in the store is as it was, and \<open>n\<close> is the same in every store. The
  integer is the one the function without a store returns.
\<close>

theorem pointsForWord_pure:
  "\<exists>n st'. pointsForWordStore up (JSString w) st = (Inr n, st') \<and>
      pointsForWord up (JSString w) = Inr n \<and>
      (\<forall>a. a < fresh st \<longrightarrow> heap st' a = heap st a) \<and>
      (\<forall>st2. fst (pointsForWordStore up (JSString w) st2) = Inr n)"
proof -
  have run: "\<exists>st'. pointsForWordStore up (JSString w) s = (Inr (forOf up (stringIterator w) 0), st') \<and>
      (\<forall>a. a < fresh s \<longrightarrow> heap st' a = heap s a)" for s
    using forOfStore_pure [of up "stringIterator w" 0 s]
    by (auto simp: pointsForWordStore_def)
  have "\<forall>st2. fst (pointsForWordStore up (JSString w) st2) = Inr (forOf up (stringIterator w) 0)"
  proof
    fix st2
    from run [of st2] show "fst (pointsForWordStore up (JSString w) st2) = Inr (forOf up (stringIterator w) 0)"
      by auto
  qed
  moreover have "pointsForWord up (JSString w) = Inr (forOf up (stringIterator w) 0)"
    by (simp add: pointsForWord_def)
  ultimately show ?thesis using run [of st] by blast
qed

theorem pointsForWord_pure_witness:
  "fst (pointsForWordStore upperExcerpt (JSString (utf16 ''test'')) sharedStore) = Inr 7 \<and>
   heap (snd (pointsForWordStore upperExcerpt (JSString (utf16 ''test'')) sharedStore)) 0 =
     Some \<lparr>ignoreCaseFlag = True, globalFlag = True, stickyFlag = False, lastIndex = 1\<rparr>"
proof -
  from pointsForWord_pure [of upperExcerpt "utf16 ''test''" sharedStore]
  obtain n st' where
    run: "pointsForWordStore upperExcerpt (JSString (utf16 ''test'')) sharedStore = (Inr n, st')" and
    val: "pointsForWord upperExcerpt (JSString (utf16 ''test'')) = Inr n" and
    frame: "\<forall>a. a < fresh sharedStore \<longrightarrow> heap st' a = heap sharedStore a"
    by blast
  have "pointsForWord upperExcerpt (JSString (utf16 ''test'')) = Inr 7"
    by (simp add: pointsForWord_eval)
  with val have "n = 7" by simp
  moreover from frame have "heap st' 0 = heap sharedStore 0"
    by (simp add: sharedStore_def)
  ultimately show ?thesis using run by (simp add: sharedStore_def)
qed

text \<open>
  Claim C9. The loop runs over code points: wherever a lead surrogate followed by a trail
  surrogate stands in a word, the two code units are one value of the loop, tested once,
  and add \<open>2\<close> points to the scores of what stands before and after; the score is then
  less than twice the number of code units of the word.
\<close>

theorem pointsForWord_surrogate_pair:
  assumes "isLeadSurrogate hi" and "isTrailSurrogate lo"
  shows "stringIterator (w1 @ hi # lo # w2) =
           stringIterator w1 @ [hi, lo] # stringIterator w2 \<and>
         (\<exists>p1 p2. pointsForWord up (JSString w1) = Inr p1 \<and>
            pointsForWord up (JSString w2) = Inr p2 \<and>
            pointsForWord up (JSString (w1 @ hi # lo # w2)) = Inr (p1 + 2 + p2) \<and>
            p1 + 2 + p2 < 2 * int (length (w1 @ hi # lo # w2)))"
proof -
  have "\<not> vowelCharacter [hi, lo]"
    by (simp add: vowelCharacter_def)
  with score_le_units [of w1] score_le_units [of w2] show ?thesis
    by (simp add: pointsForWord_sum stringIterator_pair [OF assms])
qed

theorem pointsForWord_surrogate_pair_witness:
  "isLeadSurrogate 0xD83D \<and> isTrailSurrogate 0xDE00 \<and>
   stringIterator (utf16 ''te'' @ 0xD83D # 0xDE00 # utf16 ''st'') =
     [utf16 ''t'', utf16 ''e'', [0xD83D, 0xDE00], utf16 ''s'', utf16 ''t''] \<and>
   pointsForWord upperExcerpt (JSString (utf16 ''te'')) = Inr 3 \<and>
   pointsForWord upperExcerpt (JSString (utf16 ''st'')) = Inr 4 \<and>
   pointsForWord upperExcerpt (JSString (utf16 ''te'' @ 0xD83D # 0xDE00 # utf16 ''st'')) =
     Inr (3 + 2 + 4) \<and>
   (3 + 2 + 4 :: int) < 2 * int (length (utf16 ''te'' @ 0xD83D # 0xDE00 # utf16 ''st''))"
proof -
  have hi: "isLeadSurrogate 0xD83D" by (simp add: isLeadSurrogate_def)
  have lo: "isTrailSurrogate 0xDE00" by (simp add: isTrailSurrogate_def)
  have a: "pointsForWord upperExcerpt (JSString (utf16 ''te'')) = Inr 3"
    by (simp add: pointsForWord_eval)
  have b: "pointsForWord upperExcerpt (JSString (utf16 ''st'')) = Inr 4"
    by (simp add: pointsForWord_eval)
  have it: "stringIterator (utf16 ''te'') = [utf16 ''t'', utf16 ''e'']"
    "stringIterator (utf16 ''st'') = [utf16 ''s'', utf16 ''t'']"
    by (simp_all add: utf16_def isLeadSurrogate_def isTrailSurrogate_def)
  from pointsForWord_surrogate_pair [OF hi lo, of "utf16 ''te''" "utf16 ''st''" upperExcerpt]
    a b it hi lo
  show ?thesis by (auto simp: utf16_def)
qed

text \<open>
  Claim C10. A word of one character scores \<open>1\<close> when the character is one of the ten
  ASCII letters a, e, i, o, u, A, E, I, O, U, and \<open>2\<close> for any other character; e with
  acute and A with grave score \<open>2\<close>.
\<close>

theorem pointsForWord_character:
  assumes "stringIterator w = [ch]"
  shows "pointsForWord up (JSString w) =
           Inr (if w \<in> set (map (\<lambda>c. [c]) (utf16 ''aeiouAEIOU'')) then 1 else 2) \<and>
         pointsForWord up (JSString [0xE9]) = Inr 2 \<and>
         pointsForWord up (JSString [0xC0]) = Inr 2"
proof -
  have "concat (stringIterator w) = w" by (rule concat_stringIterator)
  with assms have w: "w = ch" by simp
  have "vowelCharacter w \<longleftrightarrow> w \<in> set (map (\<lambda>c. [c]) (utf16 ''aeiouAEIOU''))"
    by (auto simp: vowelCharacter_def vowelUnit_def split: list.splits)
  moreover have "pointsForWord up (JSString [0xE9]) = Inr 2"
    by (simp add: pointsForWord_eval)
  moreover have "pointsForWord up (JSString [0xC0]) = Inr 2"
    by (simp add: pointsForWord_eval)
  ultimately show ?thesis
    using assms w by (simp add: pointsForWord_sum)
qed

theorem pointsForWord_character_witness:
  "stringIterator [0x131] = [[0x131]] \<and>
   pointsForWord upperExcerpt (JSString [0x131]) = Inr 2 \<and>
   stringIterator (utf16 ''U'') = [utf16 ''U''] \<and>
   pointsForWord upperExcerpt (JSString (utf16 ''U'')) = Inr 1"
  using pointsForWord_character [of "[0x131]" "[0x131]" upperExcerpt]
    pointsForWord_character [of "utf16 ''U''" "utf16 ''U''" upperExcerpt]
  by (simp add: utf16_def)

end
